theory Spec2Isabelle
  imports Main
begin

section \<open>JavaScript values, JSON and localStorage\<close>

text \<open>
  The values that travel through \<^verbatim>\<open>JSON.parse\<close> and \<^verbatim>\<open>JSON.stringify\<close>. Numbers are
  integers: the only numbers the code computes with are millisecond timestamps and
  lengths. An object is its list of properties in enumeration order.
\<close>

datatype jsval =
    JUndefined
  | JNull
  | JBool bool
  | JNum int
  | JStr string
  | JArr "jsval list"
  | JObj "(string \<times> jsval) list"

datatype js_error = SyntaxError | TypeError | QuotaExceededError

text \<open>ToBoolean, as used by \<^verbatim>\<open>||\<close>, \<^verbatim>\<open>&&\<close> and \<^verbatim>\<open>!\<close>.\<close>

fun truthy :: "jsval \<Rightarrow> bool" where
  "truthy JUndefined = False"
| "truthy JNull = False"
| "truthy (JBool b) = b"
| "truthy (JNum n) = (n \<noteq> 0)"
| "truthy (JStr s) = (s \<noteq> [])"
| "truthy (JArr xs) = True"
| "truthy (JObj kvs) = True"

text \<open>
  Property access \<^verbatim>\<open>v.name\<close> for the names the code reads (\<^verbatim>\<open>ts\<close>, \<^verbatim>\<open>data\<close>): only
  an object can own them; on any other value that is not null or undefined the
  result is undefined. The code guards every access by a truthiness test of \<^verbatim>\<open>v\<close>.
\<close>

fun get_prop :: "jsval \<Rightarrow> string \<Rightarrow> jsval" where
  "get_prop (JObj kvs) k = (case map_of kvs k of None \<Rightarrow> JUndefined | Some v \<Rightarrow> v)"
| "get_prop v k = JUndefined"

text \<open>
  ToNumber, as applied by the binary minus. On strings, arrays and objects the
  conversion goes through the runtime's string-to-number grammar, which is taken
  as the parameter \<open>conv\<close>; \<open>None\<close> is NaN.
\<close>

fun ToNumber :: "(jsval \<Rightarrow> int option) \<Rightarrow> jsval \<Rightarrow> int option" where
  "ToNumber conv JUndefined = None"
| "ToNumber conv JNull = Some 0"
| "ToNumber conv (JBool b) = Some (if b then 1 else 0)"
| "ToNumber conv (JNum n) = Some n"
| "ToNumber conv v = conv v"

text \<open>
  A string held by localStorage is represented by what \<^verbatim>\<open>JSON.parse\<close> makes of it:
  either a syntax error or a value.
\<close>

datatype raw = Garbage | Json jsval

text \<open>
  \<^verbatim>\<open>JSON.stringify\<close> drops the properties whose value is undefined and writes an
  undefined array element as null; \<open>jsonify v\<close> is the value that the serialisation
  of \<open>v\<close> parses back to. The serialisation of undefined itself is not a string but
  undefined (\<open>None\<close>).
\<close>

fun jsonify :: "jsval \<Rightarrow> jsval" where
  "jsonify (JArr xs) = JArr (map (\<lambda>x. if x = JUndefined then JNull else jsonify x) xs)"
| "jsonify (JObj kvs) =
     JObj (map (\<lambda>kv. (fst kv, jsonify (snd kv))) (filter (\<lambda>kv. snd kv \<noteq> JUndefined) kvs))"
| "jsonify v = v"

fun JSON_stringify :: "jsval \<Rightarrow> raw option" where
  "JSON_stringify JUndefined = None"
| "JSON_stringify v = Some (Json (jsonify v))"

text \<open>The values that are their own round trip through stringify and parse.\<close>

definition json_value :: "jsval \<Rightarrow> bool" where
  "json_value v = (v \<noteq> JUndefined \<and> jsonify v = v)"

text \<open>\<^verbatim>\<open>JSON.parse(x)\<close> where \<open>x\<close> is a string or null; null is read as the text \<^verbatim>\<open>null\<close>.\<close>

fun JSON_parse :: "raw option \<Rightarrow> js_error + jsval" where
  "JSON_parse None = Inr JNull"
| "JSON_parse (Some Garbage) = Inl SyntaxError"
| "JSON_parse (Some (Json v)) = Inr v"

text \<open>
  localStorage: the slots, and whether the browser accepts a write
  (\<^verbatim>\<open>setItem\<close> throws QuotaExceededError when it does not). \<^verbatim>\<open>setItem\<close> turns its
  argument into a string, so undefined is stored as the text \<^verbatim>\<open>undefined\<close>, which does
  not parse.
\<close>

record storage =
  cells :: "string \<Rightarrow> raw option"
  writable :: bool

definition getItem :: "storage \<Rightarrow> string \<Rightarrow> raw option" where
  "getItem st k = cells st k"

definition setItem :: "storage \<Rightarrow> string \<Rightarrow> raw option \<Rightarrow> js_error + storage" where
  "setItem st k x =
     (if writable st
      then Inr (st\<lparr>cells := (cells st)(k \<mapsto> (case x of None \<Rightarrow> Garbage | Some r \<Rightarrow> r))\<rparr>)
      else Inl QuotaExceededError)"

section \<open>Event log\<close>

text \<open>
  The spread \<^verbatim>\<open>...events\<close> inside an array literal: an array yields its elements, a
  string its characters, and any other value reaching it is not iterable.
\<close>

fun spread :: "jsval \<Rightarrow> js_error + jsval list" where
  "spread (JArr xs) = Inr xs"
| "spread (JStr s) = Inr (map (\<lambda>c. JStr [c]) s)"
| "spread v = Inl TypeError"

definition events_key :: string where
  "events_key = ''streamlist.events''"

text \<open>The try block of \<^verbatim>\<open>log\<close>: \<^verbatim>\<open>JSON.parse(localStorage.getItem(key)) || []\<close>, with
  \<^verbatim>\<open>[]\<close> again when the parse throws.\<close>

definition read_events :: "storage \<Rightarrow> jsval" where
  "read_events st =
     (case JSON_parse (getItem st events_key) of
        Inl e \<Rightarrow> JArr []
      | Inr v \<Rightarrow> if truthy v then v else JArr [])"

definition mk_entry :: "string \<Rightarrow> string \<Rightarrow> string \<Rightarrow> jsval \<Rightarrow> jsval" where
  "mk_entry uid stamp type payload =
     JObj [(''id'', JStr uid), (''ts'', JStr stamp), (''type'', JStr type),
           (''payload'', if payload = JUndefined then JObj [] else payload)]"

text \<open>
  \<^verbatim>\<open>log(type, payload)\<close> of \<^verbatim>\<open>useEventLog\<close>; \<open>uid\<close> is the result of \<^verbatim>\<open>uuid()\<close> and
  \<open>stamp\<close> that of \<^verbatim>\<open>new Date().toISOString()\<close>. \<open>Inl\<close> is an exception leaving \<^verbatim>\<open>log\<close>.
\<close>

definition log :: "string \<Rightarrow> string \<Rightarrow> string \<Rightarrow> jsval \<Rightarrow> storage \<Rightarrow> js_error + storage" where
  "log uid stamp type payload st =
     (let events = read_events st;
          entry = mk_entry uid stamp type payload
      in case spread events of
           Inl e \<Rightarrow> Inl e
         | Inr es \<Rightarrow> setItem st events_key (JSON_stringify (JArr (take 1000 (entry # es)))))"

section \<open>List store\<close>

record ListItem =
  item_id :: string
  title :: string
  completed :: bool
  createdAt :: int

text \<open>
  The state of \<^verbatim>\<open>HomeStreamList\<close> together with localStorage. \<open>title_input\<close> is the
  \<^verbatim>\<open>title\<close> state of the input field, \<open>filter_mode\<close> the \<^verbatim>\<open>filter\<close> state. A handler
  runs in the render of the current state, so the \<^verbatim>\<open>items\<close> it reads and the \<^verbatim>\<open>prev\<close> its
  updater receives are the same list.
\<close>

record world =
  title_input :: string
  items :: "ListItem list"
  filter_mode :: string
  editingId :: "string option"
  editingText :: string
  localStorage :: storage

text \<open>What a handler needs from the runtime: the results of its calls of \<^verbatim>\<open>uuid()\<close>,
  \<^verbatim>\<open>Date.now()\<close> and \<^verbatim>\<open>new Date().toISOString()\<close>.\<close>

record env =
  item_uuid :: string
  date_now :: int
  log_uuid :: string
  date_iso :: string

text \<open>
  A handler ends with the state updates it has made and, when \<^verbatim>\<open>log\<close> threw, the
  exception that leaves the handler.
\<close>

definition with_log :: "env \<Rightarrow> string \<Rightarrow> jsval \<Rightarrow> world \<Rightarrow> world \<times> js_error option" where
  "with_log e type payload w =
     (case log (log_uuid e) (date_iso e) type payload (localStorage w) of
        Inl err \<Rightarrow> (w, Some err)
      | Inr st \<Rightarrow> (w\<lparr>localStorage := st\<rparr>, None))"

text \<open>White space of \<^verbatim>\<open>\s\<close> and \<^verbatim>\<open>trim()\<close> among the code units below 256.\<close>

definition is_space :: "char \<Rightarrow> bool" where
  "is_space c = (c \<in> set [CHR 0x09, CHR 0x0A, CHR 0x0B, CHR 0x0C, CHR 0x0D, CHR 0x20, CHR 0xA0])"

text \<open>\<^verbatim>\<open>s.replace(/\s+/g, " ")\<close>: every maximal run of white space becomes one blank.\<close>

function collapse_ws :: "string \<Rightarrow> string" where
  "collapse_ws [] = []"
| "collapse_ws (c # cs) =
     (if is_space c then CHR 0x20 # collapse_ws (dropWhile is_space cs)
      else c # collapse_ws cs)"
  by pat_completeness auto
termination
  by (relation "measure length") (auto simp: less_Suc_eq_le length_dropWhile_le)

definition trim :: "string \<Rightarrow> string" where
  "trim s = rev (dropWhile is_space (rev (dropWhile is_space s)))"

definition find_item :: "ListItem list \<Rightarrow> string \<Rightarrow> ListItem option" where
  "find_item xs i = List.find (\<lambda>x. item_id x = i) xs"

definition addItem :: "env \<Rightarrow> world \<Rightarrow> world \<times> js_error option" where
  "addItem e w =
     (let trimmed = trim (collapse_ws (title_input w)) in
      if trimmed = [] then (w, None)
      else
        let newItem = \<lparr>item_id = item_uuid e, title = trimmed, completed = False,
                       createdAt = date_now e\<rparr>;
            w1 = w\<lparr>items := newItem # items w, title_input := []\<rparr>
        in with_log e ''item_add'' (JObj [(''title'', JStr trimmed)]) w1)"

definition toggleComplete :: "env \<Rightarrow> string \<Rightarrow> world \<Rightarrow> world \<times> js_error option" where
  "toggleComplete e i w =
     (let current = find_item (items w) i;
          w1 = w\<lparr>items := map (\<lambda>it. if item_id it = i then it\<lparr>completed := \<not> completed it\<rparr> else it)
                              (items w)\<rparr>
      in with_log e ''item_toggle''
           (JObj [(''id'', JStr i),
                  (''title'', case current of None \<Rightarrow> JUndefined | Some c \<Rightarrow> JStr (title c)),
                  (''to'', JBool (case current of None \<Rightarrow> True | Some c \<Rightarrow> \<not> completed c))])
           w1)"

definition removeItem :: "env \<Rightarrow> string \<Rightarrow> world \<Rightarrow> world \<times> js_error option" where
  "removeItem e i w =
     (let it = find_item (items w) i;
          w1 = w\<lparr>items := filter (\<lambda>x. item_id x \<noteq> i) (items w)\<rparr>
      in with_log e ''item_delete''
           (JObj [(''id'', JStr i),
                  (''title'', case it of None \<Rightarrow> JUndefined | Some c \<Rightarrow> JStr (title c))])
           w1)"

definition clearCompleted :: "env \<Rightarrow> world \<Rightarrow> world \<times> js_error option" where
  "clearCompleted e w =
     (let removed = map title (filter completed (items w));
          w1 = w\<lparr>items := filter (\<lambda>it. \<not> completed it) (items w)\<rparr>
      in with_log e ''items_clear_completed''
           (JObj [(''removed'', JArr (map JStr removed))]) w1)"

definition cancelEdit :: "env \<Rightarrow> world \<Rightarrow> world \<times> js_error option" where
  "cancelEdit e w =
     (case with_log e ''item_edit_cancel''
             (JObj [(''id'', case editingId w of None \<Rightarrow> JNull | Some i \<Rightarrow> JStr i)]) w of
        (w1, Some err) \<Rightarrow> (w1, Some err)
      | (w1, None) \<Rightarrow> (w1\<lparr>editingId := None, editingText := []\<rparr>, None))"

record Stats =
  total :: nat
  done_count :: nat
  left :: int

definition stats :: "world \<Rightarrow> Stats" where
  "stats w =
     (let total = length (items w);
          done = length (filter completed (items w))
      in \<lparr>total = total, done_count = done, left = int total - int done\<rparr>)"

text \<open>
  Sequences of user actions. \<open>Add t\<close> types \<open>t\<close> into the input field and submits the
  form. An exception leaving a handler does not undo the state updates it made.
\<close>

datatype action = Add string | Remove string | Toggle string

fun act :: "env \<times> action \<Rightarrow> world \<Rightarrow> world" where
  "act (e, Add t) w = fst (addItem e (w\<lparr>title_input := t\<rparr>))"
| "act (e, Remove i) w = fst (removeItem e i w)"
| "act (e, Toggle i) w = fst (toggleComplete e i w)"

fun run :: "(env \<times> action) list \<Rightarrow> world \<Rightarrow> world" where
  "run [] w = w"
| "run (a # as) w = run as (act a w)"

text \<open>Successive calls of \<^verbatim>\<open>log\<close>, each given as (uuid, timestamp, type, payload); a call
  that throws leaves the storage as it was.\<close>

fun appends :: "(string \<times> string \<times> string \<times> jsval) list \<Rightarrow> storage \<Rightarrow> storage" where
  "appends [] st = st"
| "appends ((u, s, t, p) # cs) st =
     appends cs (case log u s t p st of Inl e \<Rightarrow> st | Inr st' \<Rightarrow> st')"

definition entry_of :: "string \<times> string \<times> string \<times> jsval \<Rightarrow> jsval" where
  "entry_of c = (case c of (u, s, t, p) \<Rightarrow> mk_entry u s t p)"

fun iterable :: "jsval \<Rightarrow> bool" where
  "iterable (JArr xs) = True"
| "iterable (JStr s) = True"
| "iterable v = False"

text \<open>The stored values from which \<^verbatim>\<open>log\<close> can build its array: nothing, a string that
  does not parse, a falsy value, or an array (or a string, spread into characters).\<close>

definition log_slot_ok :: "storage \<Rightarrow> bool" where
  "log_slot_ok st =
     (case getItem st events_key of
        None \<Rightarrow> True
      | Some Garbage \<Rightarrow> True
      | Some (Json v) \<Rightarrow> \<not> truthy v \<or> iterable v)"

section \<open>Cross-tab notifier\<close>

datatype area = LocalStorageArea | SessionStorageArea

record StorageEvent =
  ev_key :: "string option"
  newValue :: "raw option"
  storageArea :: area

text \<open>
  What the listener does to the state of \<^verbatim>\<open>useLocalStorage\<close>: \<open>Keep\<close> when \<^verbatim>\<open>setValue\<close>
  is not called or its updater returns \<^verbatim>\<open>curr\<close> itself, \<open>Replace next\<close> when the updater
  returns \<^verbatim>\<open>next\<close>.
\<close>

datatype update = Keep | Replace jsval

definition onStorage :: "string \<Rightarrow> jsval \<Rightarrow> StorageEvent \<Rightarrow> jsval \<Rightarrow> update" where
  "onStorage key initialValue e cur =
     (if ev_key e = Some key \<and> storageArea e = LocalStorageArea then
        (case (case newValue e of None \<Rightarrow> Inr initialValue | Some r \<Rightarrow> JSON_parse (Some r)) of
           Inl err \<Rightarrow> Keep
         | Inr next \<Rightarrow>
             if JSON_stringify cur = JSON_stringify next then Keep else Replace next)
      else Keep)"

text \<open>
  Deep equality of two values, as the specification means it: arrays are equal element
  by element, objects when they have the same properties with deeply equal values, in
  whatever order the properties are listed.
\<close>

function (sequential) deep_equal :: "jsval \<Rightarrow> jsval \<Rightarrow> bool" where
  "deep_equal (JArr xs) (JArr ys) =
     (length xs = length ys \<and> (\<forall>p \<in> set (zip xs ys). deep_equal (fst p) (snd p)))"
| "deep_equal (JObj kvs) (JObj lvs) =
     (length kvs = length lvs
      \<and> (\<forall>kv \<in> set kvs. \<exists>lv \<in> set lvs. fst kv = fst lv \<and> deep_equal (snd kv) (snd lv)))"
| "deep_equal a b = (a = b)"
  by pat_completeness auto
termination
proof (relation "measure (\<lambda>p. size (fst p))")
  show "wf (measure (\<lambda>p. size (fst p)))" by simp
next
  fix xs ys :: "jsval list" and x
  assume "x \<in> set (zip xs ys)"
  then have "fst x \<in> set xs" by (metis set_zip_leftD prod.collapse)
  then have "size (fst x) \<le> size_list size xs" by (rule size_list_estimation') simp
  then show "((fst x, snd x), JArr xs, JArr ys) \<in> measure (\<lambda>p. size (fst p))" by simp
next
  fix kvs lvs :: "(string \<times> jsval) list" and x xa
  assume "x \<in> set kvs"
  then have "size_prod (\<lambda>_. 0) size x \<le> size_list (size_prod (\<lambda>_. 0) size) kvs"
    by (rule size_list_estimation') simp
  then show "((snd x, snd xa), JObj kvs, JObj lvs) \<in> measure (\<lambda>p. size (fst p))"
    by (cases x) simp
qed

text \<open>
  The listener as the specification words it: the new raw value is parsed, the caller's
  default stands in when the parse fails (or the value is gone), and the state is
  replaced when the result is not deeply equal to the current value.
\<close>

definition onStorage_spec :: "string \<Rightarrow> jsval \<Rightarrow> StorageEvent \<Rightarrow> jsval \<Rightarrow> update" where
  "onStorage_spec key initialValue e cur =
     (if ev_key e = Some key \<and> storageArea e = LocalStorageArea then
        (let next = (case newValue e of
                       None \<Rightarrow> initialValue
                     | Some r \<Rightarrow> (case JSON_parse (Some r) of Inl err \<Rightarrow> initialValue | Inr v \<Rightarrow> v))
         in if deep_equal cur next then Keep else Replace next)
      else Keep)"

section \<open>Remote cache layer\<close>

record MoviesState =
  loading :: bool
  error :: "string option"
  data :: jsval

definition CACHE_KEY :: string where
  "CACHE_KEY = ''streamlist.tmdb.popular.v2''"

definition CACHE_TTL_MS :: int where
  "CACHE_TTL_MS = 1000 * 60 * 60"

definition initial_state :: MoviesState where
  "initial_state = \<lparr>loading = True, error = None, data = JArr []\<rparr>"

definition key_missing_msg :: string where
  "key_missing_msg = ''TMDB API key missing. Add REACT_APP_TMDB_API_KEY to your .env and restart.''"

text \<open>
  The cache block of the effect: \<open>Some s\<close> when it calls \<^verbatim>\<open>setState(s)\<close>, \<open>None\<close> when
  the condition fails or the parse throws. \<open>now\<close> is \<^verbatim>\<open>Date.now()\<close>.
\<close>

definition cache_step :: "(jsval \<Rightarrow> int option) \<Rightarrow> int \<Rightarrow> storage \<Rightarrow> MoviesState option" where
  "cache_step conv now st =
     (case JSON_parse (getItem st CACHE_KEY) of
        Inl e \<Rightarrow> None
      | Inr cached \<Rightarrow>
          if truthy cached \<and> truthy (get_prop cached ''ts'') \<and> truthy (get_prop cached ''data'')
             \<and> (case ToNumber conv (get_prop cached ''ts'') of
                   None \<Rightarrow> False
                 | Some t \<Rightarrow> now - t < CACHE_TTL_MS)
          then Some \<lparr>loading = False, error = None, data = get_prop cached ''data''\<rparr>
          else None)"

text \<open>
  The synchronous part of the effect of \<^verbatim>\<open>Movies\<close>, run on page-enter from the initial
  state, up to and including the call of \<^verbatim>\<open>fetch\<close>: the states set by the successive
  \<^verbatim>\<open>setState\<close> calls, whether \<^verbatim>\<open>fetch\<close> was called, and localStorage afterwards.
  \<open>Inl\<close> is an exception leaving the effect.
\<close>

record entered =
  states :: "MoviesState list"
  fetch_issued :: bool
  storage_after :: storage

definition Movies_effect ::
  "env \<Rightarrow> (jsval \<Rightarrow> int option) \<Rightarrow> string option \<Rightarrow> storage \<Rightarrow> js_error + entered" where
  "Movies_effect e conv TMDB_KEY st =
     (case log (log_uuid e) (date_iso e) ''page_view'' (JObj [(''page'', JStr ''movies'')]) st of
        Inl err \<Rightarrow> Inl err
      | Inr st1 \<Rightarrow>
          let hit = cache_step conv (date_now e) st1;
              s1 = (case hit of None \<Rightarrow> initial_state | Some s \<Rightarrow> s);
              tr1 = (case hit of None \<Rightarrow> [] | Some s \<Rightarrow> [s])
          in if TMDB_KEY = None \<or> TMDB_KEY = Some [] then
               Inr \<lparr>states = tr1 @ [\<lparr>loading = False, error = Some key_missing_msg, data = JArr []\<rparr>],
                    fetch_issued = False, storage_after = st1\<rparr>
             else
               Inr \<lparr>states = tr1 @ [s1\<lparr>loading := True, error := None\<rparr>],
                    fetch_issued = True, storage_after = st1\<rparr>)"

section \<open>Concrete inputs\<close>

definition env0 :: env where
  "env0 = \<lparr>item_uuid = ''u1'', date_now = 1700000000000, log_uuid = ''u2'',
            date_iso = ''2023-11-14T22:13:20.000Z''\<rparr>"

definition empty_storage :: storage where
  "empty_storage = \<lparr>cells = (\<lambda>k. None), writable = True\<rparr>"

definition full_storage :: storage where
  "full_storage = \<lparr>cells = (\<lambda>k. None), writable = False\<rparr>"

definition item_a :: ListItem where
  "item_a = \<lparr>item_id = ''a'', title = ''Super Troopers'', completed = False, createdAt = 1\<rparr>"

definition item_b :: ListItem where
  "item_b = \<lparr>item_id = ''b'', title = ''Heat'', completed = True, createdAt = 2\<rparr>"

definition world0 :: world where
  "world0 = \<lparr>title_input = [], items = [item_a, item_b], filter_mode = ''all'',
              editingId = None, editingText = [], localStorage = empty_storage\<rparr>"

definition long_log_storage :: storage where
  "long_log_storage =
     \<lparr>cells = (\<lambda>k. None)(events_key \<mapsto> Json (JArr (replicate 1500 JNull))), writable = True\<rparr>"

definition object_log_storage :: storage where
  "object_log_storage = \<lparr>cells = (\<lambda>k. None)(events_key \<mapsto> Json (JObj [])), writable = True\<rparr>"

definition string_log_storage :: storage where
  "string_log_storage = \<lparr>cells = (\<lambda>k. None)(events_key \<mapsto> Json (JStr ''ab'')), writable = True\<rparr>"

definition calls0 :: "(string \<times> string \<times> string \<times> jsval) list" where
  "calls0 = [(''u1'', ''t1'', ''page_view'', JObj [(''page'', JStr ''home'')]),
             (''u2'', ''t2'', ''item_add'', JObj [(''title'', JStr ''Heat'')])]"

definition items_key :: string where
  "items_key = ''streamlist.items''"

definition ev_garbage :: StorageEvent where
  "ev_garbage = \<lparr>ev_key = Some items_key, newValue = Some Garbage, storageArea = LocalStorageArea\<rparr>"

definition ev_removed :: StorageEvent where
  "ev_removed = \<lparr>ev_key = Some items_key, newValue = None, storageArea = LocalStorageArea\<rparr>"

definition ev_new :: StorageEvent where
  "ev_new = \<lparr>ev_key = Some items_key, newValue = Some (Json (JArr [JStr ''x''])),
             storageArea = LocalStorageArea\<rparr>"

definition ev_session :: StorageEvent where
  "ev_session = \<lparr>ev_key = Some items_key, newValue = Some (Json (JArr [JStr ''x''])),
                 storageArea = SessionStorageArea\<rparr>"

definition ev_other :: StorageEvent where
  "ev_other = \<lparr>ev_key = Some ''streamlist.filter'', newValue = Some (Json (JStr ''active'')),
               storageArea = LocalStorageArea\<rparr>"

text \<open>The same object written with its two properties in either order.\<close>

definition obj_ab :: jsval where
  "obj_ab = JObj [(''a'', JNum 1), (''b'', JNum 2)]"

definition obj_ba :: jsval where
  "obj_ba = JObj [(''b'', JNum 2), (''a'', JNum 1)]"

definition ev_reordered :: StorageEvent where
  "ev_reordered = \<lparr>ev_key = Some items_key, newValue = Some (Json obj_ba),
                   storageArea = LocalStorageArea\<rparr>"

definition conv0 :: "jsval \<Rightarrow> int option" where
  "conv0 v = None"

definition movies0 :: jsval where
  "movies0 = JArr [JObj [(''id'', JNum 1), (''title'', JStr ''Heat'')]]"

text \<open>An envelope fetched TTL - 1 ms before \<open>date_now env0\<close>.\<close>

definition fresh_cache_storage :: storage where
  "fresh_cache_storage =
     \<lparr>cells = (\<lambda>k. None)(CACHE_KEY \<mapsto> Json (JObj [(''ts'', JNum 1699996400001), (''data'', movies0)])),
      writable = True\<rparr>"

text \<open>What of an outcome of the effect can be observed from outside localStorage.\<close>

definition observed :: "js_error + entered \<Rightarrow> js_error + bool \<times> MoviesState list" where
  "observed x = map_sum id (\<lambda>r. (fetch_issued r, states r)) x"

section \<open>List store: properties\<close>

lemma items_with_log: "items (fst (with_log e t p w)) = items w"
  by (simp add: with_log_def split: sum.splits)

lemma flip_flip:
  "map ((\<lambda>it. if item_id it = i then it\<lparr>completed := \<not> completed it\<rparr> else it) \<circ>
        (\<lambda>it. if item_id it = i then it\<lparr>completed := \<not> completed it\<rparr> else it)) xs = xs"
  by (induction xs) auto

lemma toggled_nth:
  "k < length xs \<Longrightarrow>
   map (\<lambda>it. if item_id it = i then it\<lparr>completed := \<not> completed it\<rparr> else it) xs ! k =
   (if item_id (xs ! k) = i then (xs ! k)\<lparr>completed := \<not> completed (xs ! k)\<rparr> else xs ! k)"
  by simp

lemma find_item_None: "find_item xs i = None \<longleftrightarrow> (\<forall>x \<in> set xs. item_id x \<noteq> i)"
  by (auto simp: find_item_def find_None_iff)

text \<open>
  Claim C3. Whatever sequence of add, remove and toggle actions is run from whatever
  starting state, \<^verbatim>\<open>stats\<close> of the resulting collection has total = done + left, and
  done is the number of items whose \<open>completed\<close> field is true.
\<close>

theorem stats_after_actions:
  "int (total (stats (run as w))) = int (done_count (stats (run as w))) + left (stats (run as w))
   \<and> done_count (stats (run as w))
       = card {k. k < length (items (run as w)) \<and> completed (items (run as w) ! k)}"
proof -
  let ?xs = "items (run as w)"
  have "done_count (stats (run as w)) = length (filter completed ?xs)"
    by (simp add: stats_def Let_def)
  also have "\<dots> = card {k. k < length ?xs \<and> completed (?xs ! k)}"
    by (rule length_filter_conv_card)
  finally have dn: "done_count (stats (run as w)) = card {k. k < length ?xs \<and> completed (?xs ! k)}" .
  have "int (total (stats (run as w))) = int (done_count (stats (run as w))) + left (stats (run as w))"
    by (simp add: stats_def Let_def)
  with dn show ?thesis by simp
qed

text \<open>
  The scenario of the specification: adding "Super Troopers" to the empty collection
  gives \<open>{total: 1, done: 0, left: 1}\<close>, toggling it \<open>{total: 1, done: 1, left: 0}\<close>.
\<close>

theorem stats_after_actions_witness:
  "stats (run [(env0, Add ''Super Troopers'')] (world0\<lparr>items := []\<rparr>))
     = \<lparr>total = 1, done_count = 0, left = 1\<rparr>
   \<and> stats (run [(env0, Add ''Super Troopers''), (env0, Toggle ''u1'')] (world0\<lparr>items := []\<rparr>))
     = \<lparr>total = 1, done_count = 1, left = 0\<rparr>
   \<and> card {k. k < length (items (run [(env0, Add ''Super Troopers''), (env0, Toggle ''u1'')]
                                       (world0\<lparr>items := []\<rparr>)))
             \<and> completed (items (run [(env0, Add ''Super Troopers''), (env0, Toggle ''u1'')]
                                      (world0\<lparr>items := []\<rparr>)) ! k)} = 1"
proof -
  let ?w = "world0\<lparr>items := []\<rparr>"
  have t: "trim (collapse_ws ''Super Troopers'') = ''Super Troopers''"
    by (simp add: trim_def is_space_def)
  have a: "items (run [(env0, Add ''Super Troopers'')] ?w)
             = [\<lparr>item_id = ''u1'', title = ''Super Troopers'', completed = False,
                 createdAt = 1700000000000\<rparr>]"
    by (simp add: addItem_def t items_with_log Let_def env0_def world0_def del: collapse_ws.simps)
  have b: "items (run [(env0, Add ''Super Troopers''), (env0, Toggle ''u1'')] ?w)
             = [\<lparr>item_id = ''u1'', title = ''Super Troopers'', completed = True,
                 createdAt = 1700000000000\<rparr>]"
    by (simp add: addItem_def toggleComplete_def t items_with_log Let_def env0_def world0_def
        del: collapse_ws.simps)
  have s1: "stats (run [(env0, Add ''Super Troopers'')] ?w) = \<lparr>total = 1, done_count = 0, left = 1\<rparr>"
    unfolding stats_def a by simp
  have s2: "stats (run [(env0, Add ''Super Troopers''), (env0, Toggle ''u1'')] ?w)
              = \<lparr>total = 1, done_count = 1, left = 0\<rparr>"
    unfolding stats_def b by simp
  from s1 s2 stats_after_actions [of "[(env0, Add ''Super Troopers''), (env0, Toggle ''u1'')]" ?w]
  show ?thesis by simp
qed

lemma trim_empty_iff: "trim s = [] \<longleftrightarrow> (\<forall>c \<in> set s. is_space c)"
proof
  assume "trim s = []"
  then have "\<forall>c \<in> set (dropWhile is_space s). is_space c"
    by (simp add: trim_def)
  then have "dropWhile is_space s = []"
    by (metis hd_dropWhile list.set_sel(1))
  then show "\<forall>c \<in> set s. is_space c"
    by simp
next
  assume "\<forall>c \<in> set s. is_space c"
  then have "dropWhile is_space s = []" by simp
  then show "trim s = []" by (simp add: trim_def del: dropWhile_eq_Nil_conv)
qed

lemma collapse_all_space:
  "\<forall>c \<in> set s. is_space c \<Longrightarrow> collapse_ws s = [] \<or> collapse_ws s = [CHR 0x20]"
proof (cases s)
  case Nil
  then show ?thesis by simp
next
  case (Cons a list)
  assume all: "\<forall>c \<in> set s. is_space c"
  with Cons have "dropWhile is_space list = []" by simp
  with Cons all show ?thesis by (simp del: dropWhile_eq_Nil_conv)
qed

lemma trim_collapse_empty: "trim s = [] \<Longrightarrow> trim (collapse_ws s) = []"
proof -
  assume "trim s = []"
  then have "\<forall>c \<in> set s. is_space c" by (simp add: trim_empty_iff)
  then have "collapse_ws s = [] \<or> collapse_ws s = [CHR 0x20]" by (rule collapse_all_space)
  then show ?thesis by (auto simp: trim_def is_space_def)
qed

text \<open>
  Claim C5. When the trimmed input title is empty, \<^verbatim>\<open>addItem\<close> returns at once: the
  whole state, the collection and localStorage (hence the event log) included, is
  unchanged and nothing is thrown.
\<close>

theorem add_blank_noop:
  assumes "trim (title_input w) = []"
  shows "addItem e w = (w, None)"
  using trim_collapse_empty[OF assms] by (simp add: addItem_def)

theorem add_blank_noop_witness:
  "trim (title_input (world0\<lparr>title_input := ''   ''\<rparr>)) = []
   \<and> addItem env0 (world0\<lparr>title_input := ''   ''\<rparr>) = (world0\<lparr>title_input := ''   ''\<rparr>, None)
   \<and> trim (title_input (world0\<lparr>title_input := []\<rparr>)) = []
   \<and> addItem env0 (world0\<lparr>title_input := []\<rparr>) = (world0\<lparr>title_input := []\<rparr>, None)"
proof -
  have h1: "trim (title_input (world0\<lparr>title_input := ''   ''\<rparr>)) = []"
    by (simp add: trim_def is_space_def)
  have h2: "trim (title_input (world0\<lparr>title_input := []\<rparr>)) = []"
    by (simp add: trim_def)
  show ?thesis
    using h1 h2 add_blank_noop [OF h1, of env0] add_blank_noop [OF h2, of env0] by simp
qed

text \<open>
  Claim C6. \<^verbatim>\<open>clearCompleted\<close> is idempotent on the collection: a second call right
  after the first leaves the collection of the first; the first call keeps exactly the
  items that are not completed, so no completed item is left.
\<close>

theorem clearCompleted_idempotent:
  "items (fst (clearCompleted e2 (fst (clearCompleted e1 w)))) = items (fst (clearCompleted e1 w))
   \<and> items (fst (clearCompleted e1 w)) = filter (\<lambda>it. \<not> completed it) (items w)
   \<and> filter completed (items (fst (clearCompleted e1 w))) = []"
  by (simp add: clearCompleted_def Let_def items_with_log)

theorem clearCompleted_idempotent_witness:
  "items (fst (clearCompleted env0 world0)) = [item_a]
   \<and> items (fst (clearCompleted env0 (fst (clearCompleted env0 world0)))) = [item_a]"
  using clearCompleted_idempotent [of env0 env0 world0]
  by (simp add: world0_def item_a_def item_b_def)

text \<open>
  Claim C9. Toggling the same id twice in a row gives back the original collection,
  item for item, whether or not the id occurs in it.
\<close>

theorem toggle_involution:
  "items (fst (toggleComplete e2 i (fst (toggleComplete e1 i w)))) = items w"
  by (simp add: toggleComplete_def Let_def items_with_log flip_flip)

theorem toggle_involution_witness:
  "items (fst (toggleComplete env0 ''b'' world0)) = [item_a, item_b\<lparr>completed := False\<rparr>]
   \<and> items (fst (toggleComplete env0 ''b'' (fst (toggleComplete env0 ''b'' world0))))
       = [item_a, item_b]"
  using toggle_involution [of env0 "''b''" env0 world0]
  by (simp add: toggleComplete_def items_with_log Let_def world0_def item_a_def item_b_def)

text \<open>
  Claim C10. \<^verbatim>\<open>toggleComplete\<close> keeps the length of the collection and the id, title and
  creation time at every position; an item with another id is unchanged, an item with
  the given id has only its \<open>completed\<close> field negated; when no item has the id the
  collection is unchanged; and when ids are unique, as the data model has them, at
  most one position changes.
\<close>

theorem toggle_frame:
  "(let xs = items w; ys = items (fst (toggleComplete e i w)) in
      length ys = length xs
    \<and> map item_id ys = map item_id xs
    \<and> map title ys = map title xs
    \<and> map createdAt ys = map createdAt xs
    \<and> (\<forall>k < length xs.
          (item_id (xs ! k) \<noteq> i \<longrightarrow> ys ! k = xs ! k)
        \<and> (item_id (xs ! k) = i \<longrightarrow> ys ! k = (xs ! k)\<lparr>completed := \<not> completed (xs ! k)\<rparr>))
    \<and> (find_item xs i = None \<longrightarrow> ys = xs)
    \<and> (distinct (map item_id xs) \<longrightarrow>
          (\<forall>j k. j < length xs \<and> k < length xs \<and> ys ! j \<noteq> xs ! j \<and> ys ! k \<noteq> xs ! k \<longrightarrow> j = k)))"
proof -
  let ?f = "\<lambda>it. if item_id it = i then it\<lparr>completed := \<not> completed it\<rparr> else it"
  let ?xs = "items w"
  have ys: "items (fst (toggleComplete e i w)) = map ?f ?xs"
    by (simp add: toggleComplete_def Let_def items_with_log)
  have ids: "map item_id (map ?f ?xs) = map item_id ?xs" by (induction ?xs) auto
  have titles: "map title (map ?f ?xs) = map title ?xs" by (induction ?xs) auto
  have created: "map createdAt (map ?f ?xs) = map createdAt ?xs" by (induction ?xs) auto
  have absent: "find_item ?xs i = None \<longrightarrow> map ?f ?xs = ?xs"
    by (auto simp: find_item_None intro: map_idI)
  have single: "j = k"
    if d: "distinct (map item_id ?xs)" and j: "j < length ?xs" and k: "k < length ?xs"
      and cj: "map ?f ?xs ! j \<noteq> ?xs ! j" and ck: "map ?f ?xs ! k \<noteq> ?xs ! k" for j k
  proof -
    from j cj have "item_id (?xs ! j) = i" by (auto split: if_splits)
    moreover from k ck have "item_id (?xs ! k) = i" by (auto split: if_splits)
    ultimately have "map item_id ?xs ! j = map item_id ?xs ! k" using j k by simp
    with d j k show ?thesis by (simp add: nth_eq_iff_index_eq del: nth_map)
  qed
  show ?thesis
    unfolding Let_def ys
    using ids titles created absent single by (auto simp: toggled_nth)
qed

theorem toggle_frame_witness:
  "distinct (map item_id (items world0))
   \<and> find_item (items world0) ''zz'' = None
   \<and> items (fst (toggleComplete env0 ''zz'' world0)) = items world0
   \<and> items (fst (toggleComplete env0 ''a'' world0)) ! 0 = item_a\<lparr>completed := True\<rparr>
   \<and> items (fst (toggleComplete env0 ''a'' world0)) ! 1 = item_b"
  using toggle_frame [of world0 env0 "''zz''"] toggle_frame [of world0 env0 "''a''"]
  by (simp add: world0_def item_a_def item_b_def find_item_def Let_def)

section \<open>Event log: properties\<close>

lemma spread_ok:
  "\<not> truthy v \<or> iterable v \<Longrightarrow> \<exists>es. spread (if truthy v then v else JArr []) = Inr es"
  by (cases v) auto

lemma read_events_spread:
  "log_slot_ok st \<Longrightarrow> \<exists>es. spread (read_events st) = Inr es"
  by (auto simp: log_slot_ok_def read_events_def spread_ok split: option.splits raw.splits)

lemma log_succeeds:
  assumes "writable st" and "log_slot_ok st"
  shows "\<exists>rest. log u s t p st =
           Inr (st\<lparr>cells := (cells st)(events_key \<mapsto>
                  Json (JArr (jsonify (mk_entry u s t p) # rest)))\<rparr>)
         \<and> length rest < 1000"
proof -
  from assms(2) obtain es where es: "spread (read_events st) = Inr es"
    using read_events_spread by blast
  let ?g = "\<lambda>x. if x = JUndefined then JNull else jsonify x"
  have "take 1000 (mk_entry u s t p # es) = mk_entry u s t p # take 999 es"
    by (simp add: take_Cons')
  moreover have "?g (mk_entry u s t p) = jsonify (mk_entry u s t p)"
    by (simp add: mk_entry_def)
  moreover have "length (map ?g (take 999 es)) < 1000" by simp
  ultimately show ?thesis
    using assms(1) es by (auto simp: log_def setItem_def Let_def)
qed

lemma log_keeps_ok:
  assumes "writable st" and "log_slot_ok st"
  shows "writable (case log u s t p st of Inl e \<Rightarrow> st | Inr st' \<Rightarrow> st')
       \<and> log_slot_ok (case log u s t p st of Inl e \<Rightarrow> st | Inr st' \<Rightarrow> st')"
proof -
  from log_succeeds[OF assms, of u s t p] obtain rest where
    "log u s t p st =
       Inr (st\<lparr>cells := (cells st)(events_key \<mapsto>
              Json (JArr (jsonify (mk_entry u s t p) # rest)))\<rparr>)"
    by blast
  then show ?thesis using assms(1) by (simp add: log_slot_ok_def getItem_def)
qed

lemma appends_newest_first:
  "writable st \<Longrightarrow> log_slot_ok st \<Longrightarrow> cs \<noteq> [] \<Longrightarrow>
   \<exists>rest. getItem (appends cs st) events_key
            = Some (Json (JArr (jsonify (entry_of (last cs)) # rest)))
        \<and> length rest < 1000"
proof (induction cs arbitrary: st)
  case Nil
  then show ?case by simp
next
  case (Cons c cs)
  obtain u s t p where c: "c = (u, s, t, p)" by (cases c) auto
  let ?st' = "case log u s t p st of Inl e \<Rightarrow> st | Inr st' \<Rightarrow> st'"
  have ok: "writable ?st'" "log_slot_ok ?st'"
    using log_keeps_ok[OF Cons.prems(1,2), of u s t p] by auto
  show ?case
  proof (cases "cs = []")
    case True
    from log_succeeds[OF Cons.prems(1,2), of u s t p] obtain rest where
      "log u s t p st =
         Inr (st\<lparr>cells := (cells st)(events_key \<mapsto>
                Json (JArr (jsonify (mk_entry u s t p) # rest)))\<rparr>)"
      and "length rest < 1000" by blast
    with True c show ?thesis by (simp add: getItem_def entry_of_def)
  next
    case False
    from Cons.IH[OF ok False] False c show ?thesis by simp
  qed
qed

text \<open>
  Claim C2. Start from a localStorage that accepts writes and whose event-log slot is
  missing, unparseable, falsy or iterable (any stored array, of any length, is), and
  make any non-empty sequence of \<^verbatim>\<open>log\<close> calls. The slot then holds an array of at most
  1000 elements whose element 0 is the entry of the most recent call, as serialised.
\<close>

theorem log_bounded_newest_first:
  assumes "writable st" and "log_slot_ok st" and "cs \<noteq> []"
  shows "\<exists>es. getItem (appends cs st) events_key = Some (Json (JArr es))
           \<and> length es \<le> 1000 \<and> es \<noteq> [] \<and> es ! 0 = jsonify (entry_of (last cs))"
proof -
  from appends_newest_first[OF assms] obtain rest where
    "getItem (appends cs st) events_key
       = Some (Json (JArr (jsonify (entry_of (last cs)) # rest)))"
    and "length rest < 1000" by blast
  then show ?thesis by auto
qed

theorem log_bounded_newest_first_witness:
  "writable long_log_storage \<and> log_slot_ok long_log_storage \<and> calls0 \<noteq> []
   \<and> (\<exists>es. getItem (appends calls0 long_log_storage) events_key = Some (Json (JArr es))
           \<and> length es \<le> 1000 \<and> es \<noteq> [] \<and> es ! 0 = jsonify (entry_of (last calls0)))"
proof -
  have h1: "writable long_log_storage" by (simp add: long_log_storage_def)
  have h2: "log_slot_ok long_log_storage"
    by (simp add: long_log_storage_def log_slot_ok_def getItem_def)
  have h3: "calls0 \<noteq> []" by (simp add: calls0_def)
  show ?thesis using h1 h2 h3 log_bounded_newest_first [OF h1 h2 h3] by simp
qed

text \<open>
  Claim C4. The claim is that a failing storage write never leaves \<^verbatim>\<open>log\<close> as an
  exception. In the code \<^verbatim>\<open>localStorage.setItem\<close> stands outside the try block: when the
  browser refuses the write, \<^verbatim>\<open>log\<close> throws QuotaExceededError to its caller, and
  \<^verbatim>\<open>cancelEdit\<close>, which logs first, never leaves edit mode.
\<close>

theorem log_write_failure_propagates:
  "log ''u2'' ''t2'' ''item_edit_cancel'' (JObj [(''id'', JStr ''a'')]) full_storage
     = Inl QuotaExceededError
   \<and> cancelEdit env0
       (world0\<lparr>editingId := Some ''a'', editingText := ''Hea'', localStorage := full_storage\<rparr>)
     = (world0\<lparr>editingId := Some ''a'', editingText := ''Hea'', localStorage := full_storage\<rparr>,
        Some QuotaExceededError)"
  by (simp add: log_def read_events_def getItem_def setItem_def full_storage_def
      cancelEdit_def with_log_def Let_def world0_def)

lemma log_tolerates_missing_or_unparseable:
  assumes "writable st"
    and "getItem st events_key = None \<or> getItem st events_key = Some Garbage
         \<or> (\<exists>v. getItem st events_key = Some (Json v) \<and> \<not> truthy v)"
  shows "log u s t p st =
           Inr (st\<lparr>cells := (cells st)(events_key \<mapsto> Json (JArr [jsonify (mk_entry u s t p)]))\<rparr>)"
  using assms
  by (auto simp: log_def read_events_def setItem_def Let_def mk_entry_def)

text \<open>
  Claim C7. The claim is that \<^verbatim>\<open>log\<close> treats every malformed stored log as empty. The
  code does so for a missing slot, an unparseable string and a falsy value
  (\<open>log_tolerates_missing_or_unparseable\<close>). A stored object reaches the spread and
  \<^verbatim>\<open>log\<close> throws TypeError; a stored string is spread into its characters, which
  stay in the log behind the new entry.
\<close>

theorem log_fails_on_malformed_log:
  "log ''u1'' ''t1'' ''page_view'' (JObj []) object_log_storage = Inl TypeError
   \<and> map_sum id (\<lambda>st. getItem st events_key)
       (log ''u1'' ''t1'' ''page_view'' (JObj []) string_log_storage)
     = Inr (Some (Json (JArr [mk_entry ''u1'' ''t1'' ''page_view'' (JObj []),
                              JStr ''a'', JStr ''b''])))"
  by (simp add: log_def read_events_def getItem_def setItem_def object_log_storage_def
      string_log_storage_def mk_entry_def Let_def)

section \<open>Cross-tab notifier: properties\<close>

lemma stringify_json_value:
  "json_value a \<Longrightarrow> json_value b \<Longrightarrow> (JSON_stringify a = JSON_stringify b) = (a = b)"
  by (cases a; cases b) (auto simp: json_value_def)

text \<open>
  Claim C8, as the code has it. A notification for another name or another storage
  area changes nothing. For the watched name in localStorage: a removed value (null)
  stands for the caller's default; a value that parses is taken as parsed; in both
  cases the state is replaced exactly when the JSON serialisations of the current and
  the new value differ. The comparison is one of serialisation strings, not deep
  equality: for values that are their own round trip through JSON the serialisations
  are equal exactly when the values are the same with their properties in the same
  order (equality on \<^typ>\<open>jsval\<close>, where an object is its ordered property list), so
  an object that arrives with its properties in another order replaces the state. A
  value that does not parse is ignored: the state is kept, the default does not stand
  in.
\<close>

theorem onStorage_contract:
  "(ev_key ev \<noteq> Some key \<or> storageArea ev \<noteq> LocalStorageArea \<longrightarrow>
      onStorage key init ev cur = Keep)
   \<and> (ev_key ev = Some key \<and> storageArea ev = LocalStorageArea \<longrightarrow>
        (case newValue ev of
           None \<Rightarrow> onStorage key init ev cur =
                    (if JSON_stringify cur = JSON_stringify init then Keep else Replace init)
         | Some Garbage \<Rightarrow> onStorage key init ev cur = Keep
         | Some (Json v) \<Rightarrow> onStorage key init ev cur =
                    (if JSON_stringify cur = JSON_stringify v then Keep else Replace v)))
   \<and> (\<forall>v. json_value cur \<and> json_value v \<longrightarrow>
          (JSON_stringify cur = JSON_stringify v) = (cur = v))"
  by (auto simp: onStorage_def stringify_json_value split: option.splits raw.splits)

theorem onStorage_contract_witness:
  "(storageArea ev_session \<noteq> LocalStorageArea
      \<and> onStorage items_key (JArr []) ev_session (JArr [JStr ''y'']) = Keep)
   \<and> (ev_key ev_other \<noteq> Some items_key
      \<and> onStorage items_key (JArr []) ev_other (JArr [JStr ''y'']) = Keep)
   \<and> (ev_key ev_new = Some items_key \<and> storageArea ev_new = LocalStorageArea
      \<and> onStorage items_key (JArr []) ev_new (JArr [JStr ''y'']) = Replace (JArr [JStr ''x''])
      \<and> onStorage items_key (JArr []) ev_new (JArr [JStr ''x'']) = Keep)
   \<and> (ev_key ev_removed = Some items_key \<and> storageArea ev_removed = LocalStorageArea
      \<and> onStorage items_key (JArr []) ev_removed (JArr [JStr ''y'']) = Replace (JArr []))
   \<and> (ev_key ev_garbage = Some items_key \<and> storageArea ev_garbage = LocalStorageArea
      \<and> onStorage items_key (JArr []) ev_garbage (JArr [JStr ''y'']) = Keep)
   \<and> (ev_key ev_reordered = Some items_key \<and> storageArea ev_reordered = LocalStorageArea
      \<and> json_value obj_ab \<and> json_value obj_ba \<and> obj_ab \<noteq> obj_ba
      \<and> JSON_stringify obj_ab \<noteq> JSON_stringify obj_ba
      \<and> onStorage items_key (JArr []) ev_reordered obj_ab = Replace obj_ba)"
  using onStorage_contract [of ev_session items_key "JArr []" "JArr [JStr ''y'']"]
    onStorage_contract [of ev_other items_key "JArr []" "JArr [JStr ''y'']"]
    onStorage_contract [of ev_new items_key "JArr []" "JArr [JStr ''y'']"]
    onStorage_contract [of ev_new items_key "JArr []" "JArr [JStr ''x'']"]
    onStorage_contract [of ev_removed items_key "JArr []" "JArr [JStr ''y'']"]
    onStorage_contract [of ev_garbage items_key "JArr []" "JArr [JStr ''y'']"]
    onStorage_contract [of ev_reordered items_key "JArr []" obj_ab]
  by (simp add: ev_session_def ev_other_def ev_new_def ev_removed_def ev_garbage_def
      ev_reordered_def obj_ab_def obj_ba_def items_key_def json_value_def)

text \<open>
  Claim C8, as stated, fails at two inputs. Where the new raw value does not parse, the
  claim has the default \<^verbatim>\<open>[]\<close> replace the current collection, and the code keeps the
  collection. Where the new value is the current object with its properties in
  another order, the two are deeply equal and the claim has the state kept, and the
  code, which compares serialisations, replaces it.
\<close>

theorem onStorage_parse_failure_counterexample:
  "onStorage items_key (JArr []) ev_garbage (JArr [JStr ''y'']) = Keep
   \<and> onStorage_spec items_key (JArr []) ev_garbage (JArr [JStr ''y'']) = Replace (JArr [])
   \<and> onStorage items_key (JArr []) ev_reordered obj_ab = Replace obj_ba
   \<and> onStorage_spec items_key (JArr []) ev_reordered obj_ab = Keep"
  by (simp add: onStorage_def onStorage_spec_def ev_garbage_def ev_reordered_def
      obj_ab_def obj_ba_def items_key_def)

section \<open>Remote cache layer: properties\<close>

text \<open>The effect runs to its end whenever its \<^verbatim>\<open>page_view\<close> log call can: the storage
  accepts writes and the event-log slot is not a truthy non-iterable value.\<close>

lemma Movies_effect_returns:
  assumes "writable st" and "log_slot_ok st"
  shows "\<exists>r. Movies_effect e conv key st = Inr r"
proof -
  from log_succeeds[OF assms] obtain st1 where
    "log (log_uuid e) (date_iso e) ''page_view'' (JObj [(''page'', JStr ''movies'')]) st = Inr st1"
    by blast
  then show ?thesis by (simp add: Movies_effect_def Let_def)
qed

text \<open>
  The cache block decides nothing: whether \<^verbatim>\<open>fetch\<close> is called depends on the API key
  alone, and the state the effect leaves behind is the error state without a key and
  a loading state with one, whatever the cache holds.
\<close>

lemma Movies_cache_never_decides:
  assumes "Movies_effect e conv key st = Inr r"
  shows "fetch_issued r = (key \<noteq> None \<and> key \<noteq> Some [])"
    and "key = None \<or> key = Some [] \<Longrightarrow>
         last (states r) = \<lparr>loading = False, error = Some key_missing_msg, data = JArr []\<rparr>"
    and "key \<noteq> None \<Longrightarrow> key \<noteq> Some [] \<Longrightarrow>
         loading (last (states r)) \<and> error (last (states r)) = None"
  using assms
  by (auto simp: Movies_effect_def Let_def split: sum.splits if_splits)

text \<open>
  Claim C1. The claim is that a page-enter with a fresh envelope goes to Ready with the
  cached data and issues no network call. Take an envelope fetched TTL - 1 ms ago and
  an API key. The cache block of the effect finds the envelope fresh and sets Ready
  with the cached data; the effect does not return there, so it goes on to set
  \<^verbatim>\<open>loading: true\<close> and to call \<^verbatim>\<open>fetch\<close>: the state left behind is a loading state and
  the network call is issued.
\<close>

theorem Movies_fresh_cache_still_fetches:
  "date_now env0 - 1699996400001 = CACHE_TTL_MS - 1
   \<and> getItem fresh_cache_storage CACHE_KEY
       = Some (Json (JObj [(''ts'', JNum 1699996400001), (''data'', movies0)]))
   \<and> cache_step conv0 (date_now env0) fresh_cache_storage
       = Some \<lparr>loading = False, error = None, data = movies0\<rparr>
   \<and> observed (Movies_effect env0 conv0 (Some ''k'') fresh_cache_storage)
       = Inr (True, [\<lparr>loading = False, error = None, data = movies0\<rparr>,
                     \<lparr>loading = True, error = None, data = movies0\<rparr>])"
  by (simp add: observed_def Movies_effect_def log_def read_events_def getItem_def setItem_def
      cache_step_def CACHE_KEY_def events_key_def CACHE_TTL_MS_def
      env0_def fresh_cache_storage_def movies0_def Let_def)

end
